theory Spec2Isabelle
  imports Complex_Main "HOL-Library.Sublist" "HOL-Library.AList"
begin

section \<open>JavaScript values used by the backend\<close>

text \<open>
  JavaScript numbers that hold Q-values, token counts, depths and thresholds are modelled
  as exact reals: the source computes them in IEEE doubles, so the arithmetic below is the
  rounding-free reading of the same expressions.  Clock readings (\<open>Date.now()\<close>) and
  counters are integers.  A JavaScript \<open>Map\<close> is an association list in insertion order
  (\<open>map_of\<close> reads it, \<open>AList.update\<close> is \<open>Map.set\<close>); a \<open>Set\<close> is a list
  without repetitions in insertion order.
\<close>

text \<open>\<open>map.get(key) || 0\<close>\<close>

definition get_or_zero :: "(string \<times> real) list \<Rightarrow> string \<Rightarrow> real" where
  "get_or_zero m k = (case map_of m k of None \<Rightarrow> 0 | Some v \<Rightarrow> v)"

text \<open>\<open>Math.max(0, ...xs)\<close>\<close>

definition math_max0 :: "real list \<Rightarrow> real" where
  "math_max0 xs = fold max xs 0"

text \<open>\<open>s.split(c)\<close> for a one-character separator\<close>

fun split_on :: "char \<Rightarrow> string \<Rightarrow> string list" where
  "split_on c [] = [[]]"
| "split_on c (x # xs) =
     (if x = c then [] # split_on c xs
      else (case split_on c xs of [] \<Rightarrow> [[x]] | w # ws \<Rightarrow> (x # w) # ws))"

text \<open>\<open>s.includes(p)\<close>; \<open>k.startsWith(p)\<close> is \<open>prefix p k\<close>\<close>

fun str_includes :: "string \<Rightarrow> string \<Rightarrow> bool" where
  "str_includes [] p = (p = [])"
| "str_includes (c # cs) p = (prefix p (c # cs) \<or> str_includes cs p)"

text \<open>\<open>set.add(x)\<close>\<close>

definition set_add :: "'a \<Rightarrow> 'a list \<Rightarrow> 'a list" where
  "set_add x xs = (if x \<in> set xs then xs else xs @ [x])"

text \<open>\<open>xs[i]\<close>, which is \<open>undefined\<close> out of range\<close>

definition index_opt :: "'a list \<Rightarrow> int \<Rightarrow> 'a option" where
  "index_opt xs i = (if 0 \<le> i \<and> i < int (length xs) then Some (xs ! nat i) else None)"


section \<open>Model Memory (enhanced-memory-system, class ModelMemory)\<close>

record preference =
  pref_value :: string
  strength :: real
  pref_context :: string

record reward_entry =
  rw_action :: string
  rw_reward :: real
  rw_state :: string
  rw_timestamp :: int

record punishment_entry =
  pn_action :: string
  pn_punishment :: real
  pn_state :: string
  pn_timestamp :: int

record personality =
  preferences :: "(string \<times> preference) list"
  emotions :: "(string \<times> real) list"

record reinforcement =
  rewards :: "reward_entry list"
  punishments :: "punishment_entry list"
  qTable :: "(string \<times> real) list"
  learningRate :: real
  discountFactor :: real
  explorationRate :: real

record modelMemory =
  agentId :: string
  agentName :: string
  mm_personality :: personality
  mm_reinforcement :: reinforcement

text \<open>The constructor: empty maps and logs, learning rate 0.1, discount 0.9, exploration 0.1.\<close>

definition ModelMemory :: "string \<Rightarrow> string \<Rightarrow> modelMemory" where
  "ModelMemory aid aname =
     \<lparr> agentId = aid, agentName = aname,
       mm_personality = \<lparr> preferences = [], emotions = [] \<rparr>,
       mm_reinforcement = \<lparr> rewards = [], punishments = [], qTable = [],
         learningRate = 1 / 10, discountFactor = 9 / 10, explorationRate = 1 / 10 \<rparr> \<rparr>"

text \<open>The Q-table key \<open>`${state}:${action}`\<close>.\<close>

definition qkey :: "string \<Rightarrow> string \<Rightarrow> string" where
  "qkey state action = state @ '':'' @ action"

text \<open>
  \<open>updateQValue(state, action, reward)\<close>: the current value (0 when absent), the values of
  all keys that start with the state string, their maximum together with 0, and the
  Q-learning formula written back under the key.
\<close>

definition nextStateActions :: "(string \<times> real) list \<Rightarrow> string \<Rightarrow> real list" where
  "nextStateActions q state = map (get_or_zero q) (filter (prefix state) (map fst q))"

definition updateQValue :: "reinforcement \<Rightarrow> string \<Rightarrow> string \<Rightarrow> real \<Rightarrow> reinforcement" where
  "updateQValue rf state action reward =
     (let key = qkey state action;
          currentQ = get_or_zero (qTable rf) key;
          maxNextQ = math_max0 (nextStateActions (qTable rf) state);
          newQ = currentQ + learningRate rf * (reward + discountFactor rf * maxNextQ - currentQ)
      in rf\<lparr> qTable := AList.update key newQ (qTable rf) \<rparr>)"

text \<open>
  \<open>updateEmotion(emotion, intensity)\<close>: clamp the boosted emotion to [0, 1], then decay
  every other emotion by 0.95.
\<close>

definition updateEmotion :: "(string \<times> real) list \<Rightarrow> string \<Rightarrow> real \<Rightarrow> (string \<times> real) list" where
  "updateEmotion em emotion intensity =
     (let current = get_or_zero em emotion;
          updated = max 0 (min 1 (current + intensity));
          em1 = AList.update emotion updated em
      in map (\<lambda>(emo, val). if emo \<noteq> emotion then (emo, val * (95 / 100)) else (emo, val)) em1)"

text \<open>
  \<open>applyReinforcement(action, reward, state)\<close>; \<open>ts\<close> is the reading of \<open>Date.now()\<close>.
  A positive reward is logged and, for an action that contains \<open>preference:\<close>,
  strengthens the preference named by the second \<open>:\<close>-separated field when it exists;
  any other reward is logged as a punishment.  Then the Q-table and the emotions are updated.
\<close>

definition strengthenPreference ::
  "(string \<times> preference) list \<Rightarrow> string \<Rightarrow> real \<Rightarrow> real \<Rightarrow> (string \<times> preference) list" where
  "strengthenPreference prefs action reward lr =
     (if str_includes action ''preference:'' then
        (case split_on CHR '':'' action of
           _ # pref # _ \<Rightarrow>
             (case map_of prefs pref of
                None \<Rightarrow> prefs
              | Some current \<Rightarrow>
                  AList.update pref
                    (current\<lparr> strength := min 1 (strength current + reward * lr) \<rparr>) prefs)
         | _ \<Rightarrow> prefs)
      else prefs)"

definition applyReinforcement ::
  "modelMemory \<Rightarrow> string \<Rightarrow> real \<Rightarrow> string \<Rightarrow> int \<Rightarrow> modelMemory" where
  "applyReinforcement m action reward state ts =
     (let rf = mm_reinforcement m;
          ps = mm_personality m;
          (rf1, ps1) =
            (if reward > 0 then
               (rf\<lparr> rewards := rewards rf @
                   [\<lparr> rw_action = action, rw_reward = reward, rw_state = state, rw_timestamp = ts \<rparr>] \<rparr>,
                ps\<lparr> preferences := strengthenPreference (preferences ps) action reward (learningRate rf) \<rparr>)
             else
               (rf\<lparr> punishments := punishments rf @
                   [\<lparr> pn_action = action, pn_punishment = \<bar>reward\<bar>, pn_state = state,
                      pn_timestamp = ts \<rparr>] \<rparr>,
                ps));
          rf2 = updateQValue rf1 state action reward;
          ps2 = ps1\<lparr> emotions := updateEmotion (emotions ps1)
                  (if reward > 0 then ''satisfaction'' else ''frustration'') (\<bar>reward\<bar> * (1 / 2)) \<rparr>
      in m\<lparr> mm_reinforcement := rf2, mm_personality := ps2 \<rparr>)"

text \<open>
  \<open>selectAction(state, availableActions)\<close>, epsilon-greedy.  The two calls of
  \<open>Math.random()\<close> are the arguments \<open>r1\<close> and \<open>r2\<close>, each in [0, 1).  The running
  best value starts at \<open>-Infinity\<close>, which is \<open>None\<close> here.  The result is \<open>None\<close> where
  the source returns \<open>undefined\<close> (an empty list of actions).
\<close>

definition better :: "real \<Rightarrow> real option \<Rightarrow> bool" where
  "better q best = (case best of None \<Rightarrow> True | Some b \<Rightarrow> q > b)"

fun exploit_loop ::
  "(string \<times> real) list \<Rightarrow> string \<Rightarrow> string list \<Rightarrow> string option \<times> real option
     \<Rightarrow> string option \<times> real option" where
  "exploit_loop q state [] best = best"
| "exploit_loop q state (action # rest) (bestAction, bestValue) =
     (let qValue = get_or_zero q (qkey state action)
      in if better qValue bestValue
         then exploit_loop q state rest (Some action, Some qValue)
         else exploit_loop q state rest (bestAction, bestValue))"

definition selectAction ::
  "modelMemory \<Rightarrow> string \<Rightarrow> string list \<Rightarrow> real \<Rightarrow> real \<Rightarrow> string option" where
  "selectAction m state availableActions r1 r2 =
     (if r1 < explorationRate (mm_reinforcement m)
      then index_opt availableActions \<lfloor>r2 * real (length availableActions)\<rfloor>
      else fst (exploit_loop (qTable (mm_reinforcement m)) state availableActions
                  (index_opt availableActions 0, None)))"

text \<open>
  The reading of the specification's update rule, for comparison with \<open>updateQValue\<close>:
  the Q-values recorded for a state are those of the keys \<open>state:action'\<close>, and
  \<open>maxNextQ\<close> is their maximum, or 0 when there are none.
\<close>

definition recordedQ :: "(string \<times> real) list \<Rightarrow> string \<Rightarrow> real list" where
  "recordedQ q state = map (get_or_zero q) (filter (prefix (qkey state [])) (map fst q))"

definition spec_maxNextQ :: "(string \<times> real) list \<Rightarrow> string \<Rightarrow> real" where
  "spec_maxNextQ q state =
     (let vs = recordedQ q state in if vs = [] then 0 else Max (set vs))"

definition spec_newQ :: "reinforcement \<Rightarrow> string \<Rightarrow> string \<Rightarrow> real \<Rightarrow> real" where
  "spec_newQ rf state action reward =
     (let oldQ = get_or_zero (qTable rf) (qkey state action)
      in oldQ + learningRate rf * (reward + discountFactor rf * spec_maxNextQ (qTable rf) state - oldQ))"

text \<open>A memory that has received one punishment of \<open>-1\<close> for action \<open>x\<close> in state \<open>s\<close>.\<close>

definition mm_example :: modelMemory where
  "mm_example = applyReinforcement (ModelMemory ''a1'' ''Agent'') ''x'' (- 1) ''s'' 5"


section \<open>Conversation Memory (enhanced-memory-system, class ConversationMemory)\<close>

record topicData =
  discussed :: nat
  consensus :: bool
  depth :: real
  firstMention :: int
  lastMention :: int

record participant =
  messageCount :: nat
  p_topics :: "string list"
  p_hashtags :: "string list"

record timeline_event =
  ev_timestamp :: int
  ev_agentId :: string
  ev_message :: string
  ev_hashtags :: "string list"
  ev_topics :: "string list"

record conversationMemory =
  sessionId :: string
  participants :: "(string \<times> participant) list"
  topics :: "(string \<times> topicData) list"
  timeline :: "timeline_event list"
  avoidedTopics :: "string list"
  contextWindow :: "timeline_event list"

definition ConversationMemory :: "string \<Rightarrow> conversationMemory" where
  "ConversationMemory sid =
     \<lparr> sessionId = sid, participants = [], topics = [], timeline = [],
       avoidedTopics = [], contextWindow = [] \<rparr>"

text \<open>The body of \<open>topics.forEach\<close> in \<open>addMessage\<close>: create the topic record or bump it.\<close>

definition trackTopic :: "int \<Rightarrow> string \<Rightarrow> (string \<times> topicData) list \<Rightarrow> (string \<times> topicData) list" where
  "trackTopic ts topic tm =
     (case map_of tm topic of
        None \<Rightarrow>
          AList.update topic
            \<lparr> discussed = 1, consensus = False, depth = 1, firstMention = ts, lastMention = ts \<rparr> tm
      | Some topicData \<Rightarrow>
          AList.update topic
            (topicData\<lparr> discussed := discussed topicData + 1, lastMention := ts,
                        depth := min 5 (depth topicData + 2 / 10) \<rparr>) tm)"

text \<open>The body of the final loop over \<open>this.topics.entries()\<close>.\<close>

definition markAvoided :: "string \<times> topicData \<Rightarrow> string list \<Rightarrow> string list" where
  "markAvoided entry avoided =
     (if discussed (snd entry) > 5 \<and> depth (snd entry) > 3
      then set_add (fst entry) avoided else avoided)"

text \<open>
  \<open>addMessage(agentId, message, metadata)\<close>.  The two extraction methods
  \<open>extractHashtags\<close> and \<open>extractTopics\<close> (regular-expression matching on the message)
  are the parameters \<open>xh\<close> and \<open>xt\<close>; \<open>ts\<close> is the reading of \<open>Date.now()\<close>.  The
  result is the timeline event and the updated memory.
\<close>

definition addMessage ::
  "(string \<Rightarrow> string list) \<Rightarrow> (string \<Rightarrow> string list) \<Rightarrow> conversationMemory \<Rightarrow>
   string \<Rightarrow> string \<Rightarrow> int \<Rightarrow> timeline_event \<times> conversationMemory" where
  "addMessage xh xt cm aid message ts =
     (let hashtags = xh message;
          tps = xt message;
          ps0 = (if map_of (participants cm) aid = None
                 then AList.update aid \<lparr> messageCount = 0, p_topics = [], p_hashtags = [] \<rparr>
                        (participants cm)
                 else participants cm);
          ps1 = (case map_of ps0 aid of
                   None \<Rightarrow> ps0
                 | Some p \<Rightarrow>
                     AList.update aid
                       (p\<lparr> messageCount := messageCount p + 1,
                           p_topics := fold set_add tps (p_topics p),
                           p_hashtags := fold set_add hashtags (p_hashtags p) \<rparr>) ps0);
          tm = fold (trackTopic ts) tps (topics cm);
          event = \<lparr> ev_timestamp = ts, ev_agentId = aid, ev_message = message,
                    ev_hashtags = hashtags, ev_topics = tps \<rparr>;
          tl1 = timeline cm @ [event];
          cw0 = contextWindow cm @ [event];
          cw1 = (if length cw0 > 20 then tl cw0 else cw0);
          av = fold markAvoided tm (avoidedTopics cm)
      in (event, cm\<lparr> participants := ps1, topics := tm, timeline := tl1,
                       contextWindow := cw1, avoidedTopics := av \<rparr>))"

text \<open>A sequence of \<open>addMessage\<close> calls on one session: (agent, message, clock reading).\<close>

fun addMessages ::
  "(string \<Rightarrow> string list) \<Rightarrow> (string \<Rightarrow> string list) \<Rightarrow> conversationMemory \<Rightarrow>
   (string \<times> string \<times> int) list \<Rightarrow> conversationMemory" where
  "addMessages xh xt cm [] = cm"
| "addMessages xh xt cm ((aid, message, ts) # calls) =
     addMessages xh xt (snd (addMessage xh xt cm aid message ts)) calls"


text \<open>
  Eleven messages of one agent, each mentioning the topic \<open>cats\<close> (the extraction
  functions are stand-ins that report that topic and no hashtag), and a twelfth one.
\<close>

definition cats_calls :: "(string \<times> string \<times> int) list" where
  "cats_calls = map (\<lambda>i. (''agent1'', ''let us discuss cats'', int i)) [1 ..< 12]"

definition cats_twelfth :: "string \<times> string \<times> int" where
  "cats_twelfth = (''agent1'', ''let us discuss cats'', 12)"

definition cats_memory :: conversationMemory where
  "cats_memory =
     addMessages (\<lambda>_. []) (\<lambda>_. [''cats'']) (ConversationMemory ''s1'') (cats_calls @ [cats_twelfth])"


section \<open>Circuit breaker (circuit-breaker.js, class CircuitBreaker)\<close>

datatype breakerState = CLOSED | OPEN | HALF_OPEN

record breakerOptions =
  opt_name :: "string option"
  opt_failureThreshold :: "int option"
  opt_resetTimeout :: "int option"
  opt_monitoringPeriod :: "int option"
  opt_fallbackFunction :: bool

record circuitBreaker =
  cb_name :: string
  failureThreshold :: int
  resetTimeout :: int
  monitoringPeriod :: int
  fallbackFunction :: bool
  cb_state :: breakerState
  failures :: nat
  successes :: nat
  lastFailureTime :: "int option"
  nextAttempt :: "int option"
  cb_requests :: "(int \<times> bool) list"

text \<open>\<open>options.x || d\<close> for a number: the default also replaces 0.\<close>

definition num_or :: "int option \<Rightarrow> int \<Rightarrow> int" where
  "num_or v d = (case v of None \<Rightarrow> d | Some n \<Rightarrow> if n = 0 then d else n)"

text \<open>
  The constructor.  \<open>fallbackFunction\<close> records whether a fallback function was given
  (\<open>False\<close> is the source's \<open>null\<close>).
\<close>

definition CircuitBreaker :: "breakerOptions \<Rightarrow> circuitBreaker" where
  "CircuitBreaker options =
     \<lparr> cb_name = (case opt_name options of None \<Rightarrow> ''default''
                    | Some n \<Rightarrow> if n = [] then ''default'' else n),
       failureThreshold = num_or (opt_failureThreshold options) 5,
       resetTimeout = num_or (opt_resetTimeout options) 30000,
       monitoringPeriod = num_or (opt_monitoringPeriod options) 60000,
       fallbackFunction = opt_fallbackFunction options,
       cb_state = CLOSED, failures = 0, successes = 0,
       lastFailureTime = None, nextAttempt = None, cb_requests = [] \<rparr>"

text \<open>
  Each synchronous block of the source reads the clock once in this model: \<open>now\<close> is the
  value of \<open>Date.now()\<close> in that block.
\<close>

definition recordRequest :: "circuitBreaker \<Rightarrow> bool \<Rightarrow> int \<Rightarrow> circuitBreaker" where
  "recordRequest b success now =
     b\<lparr> cb_requests := filter (\<lambda>req. now - fst req < monitoringPeriod b)
                          (cb_requests b @ [(now, success)]) \<rparr>"

definition trip :: "circuitBreaker \<Rightarrow> int \<Rightarrow> circuitBreaker" where
  "trip b now = b\<lparr> cb_state := OPEN, nextAttempt := Some (now + resetTimeout b) \<rparr>"

definition onSuccess :: "circuitBreaker \<Rightarrow> int \<Rightarrow> circuitBreaker" where
  "onSuccess b now =
     (let b1 = b\<lparr> failures := 0 \<rparr>;
          b2 = (if cb_state b1 = HALF_OPEN then b1\<lparr> cb_state := CLOSED \<rparr> else b1);
          b3 = b2\<lparr> successes := successes b2 + 1 \<rparr>
      in recordRequest b3 True now)"

definition onFailure :: "circuitBreaker \<Rightarrow> int \<Rightarrow> circuitBreaker" where
  "onFailure b now =
     (let b1 = b\<lparr> failures := failures b + 1, lastFailureTime := Some now \<rparr>;
          b2 = recordRequest b1 False now
      in if int (failures b2) \<ge> failureThreshold b2 then trip b2 now else b2)"

text \<open>
  \<open>execute(fn, ...args)\<close> is an async function: the part before \<open>await fn(...args)\<close>
  runs when \<open>execute\<close> is called, the part after it when the wrapped function settles, and
  other calls on the same breaker may run in between (the strategies dispatch agents that
  share a breaker concurrently).  \<open>execute_admit\<close> is the first part: it either invokes the
  wrapped function, or runs the fallback, or throws the circuit-open error.
  \<open>execute_settle\<close> is the second part, with \<open>ok\<close> telling whether the wrapped function
  returned or threw.
\<close>

datatype admission = Invoke | Fallback | CircuitOpenError

definition execute_admit :: "circuitBreaker \<Rightarrow> int \<Rightarrow> admission \<times> circuitBreaker" where
  "execute_admit b now =
     (if cb_state b = OPEN then
        (if now < (case nextAttempt b of None \<Rightarrow> 0 | Some t \<Rightarrow> t) then
           (if fallbackFunction b then (Fallback, b) else (CircuitOpenError, b))
         else (Invoke, b\<lparr> cb_state := HALF_OPEN \<rparr>))
      else (Invoke, b))"

definition execute_settle :: "circuitBreaker \<Rightarrow> bool \<Rightarrow> int \<Rightarrow> circuitBreaker" where
  "execute_settle b ok now = (if ok then onSuccess b now else onFailure b now)"

text \<open>
  Executions of one breaker: a sequence of events, each with its clock reading.  \<open>Call\<close> is
  a call of \<open>execute\<close>; \<open>Settle ok\<close> is the wrapped function of some admitted call
  returning (\<open>ok\<close>) or throwing.  The run keeps the breaker, the number of wrapped
  functions in flight and the admissions so far; a \<open>Settle\<close> with nothing in flight cannot
  happen and leaves the run unchanged.  The manual \<open>reset()\<close>, which nothing in the
  repository calls, is not an event of these executions.
\<close>

datatype event = Call int | Settle bool int

fun time_of :: "event \<Rightarrow> int" where
  "time_of (Call now) = now"
| "time_of (Settle ok now) = now"

fun step :: "circuitBreaker \<times> nat \<times> admission list \<Rightarrow> event \<Rightarrow> circuitBreaker \<times> nat \<times> admission list" where
  "step (b, inflight, adm) (Call now) =
     (case execute_admit b now of
        (a, b') \<Rightarrow> (b', (if a = Invoke then inflight + 1 else inflight), adm @ [a]))"
| "step (b, inflight, adm) (Settle ok now) =
     (if inflight = 0 then (b, inflight, adm)
      else (execute_settle b ok now, inflight - 1, adm))"

definition run :: "circuitBreaker \<times> nat \<times> admission list \<Rightarrow> event list \<Rightarrow> circuitBreaker \<times> nat \<times> admission list" where
  "run c es = foldl step c es"

text \<open>
  The breaker that the LLM service and the orchestration strategies create
  (\<open>failureThreshold: 3, resetTimeout: 30000\<close>, no fallback function), and an execution
  of it: four calls are admitted while it is closed; three of them fail, which opens the
  breaker at time 3; the fourth succeeds at time 4; after the reset timeout a call at time
  40000 is admitted as the probe, and the probe fails at time 40001.
\<close>

definition model_breaker :: circuitBreaker where
  "model_breaker =
     CircuitBreaker \<lparr> opt_name = Some ''gpt-4o'', opt_failureThreshold = Some 3,
                      opt_resetTimeout = Some 30000, opt_monitoringPeriod = None,
                      opt_fallbackFunction = False \<rparr>"

definition late_success_trace :: "event list" where
  "late_success_trace =
     [Call 0, Call 0, Call 0, Call 0,
      Settle False 1, Settle False 2, Settle False 3, Settle True 4,
      Call 40000, Settle False 40001]"


text \<open>
  A breaker is \<open>blocked\<close> up to a deadline when it is open and its \<open>nextAttempt\<close> is not
  before the deadline; \<open>refusal\<close> is what a call of \<open>execute\<close> does then.
\<close>

definition blocked :: "circuitBreaker \<Rightarrow> int \<Rightarrow> bool" where
  "blocked b deadline \<longleftrightarrow>
     cb_state b = OPEN \<and> (\<exists>t. nextAttempt b = Some t \<and> deadline \<le> t)"

definition refusal :: "circuitBreaker \<Rightarrow> admission" where
  "refusal b = (if fallbackFunction b then Fallback else CircuitOpenError)"

fun is_call :: "event \<Rightarrow> bool" where
  "is_call (Call now) = True"
| "is_call (Settle ok now) = False"


section \<open>Rate limiter (llm-service.js, class RateLimiter)\<close>

record rateLimiter =
  rl_limit :: real
  burstSize :: real
  rl_requests :: "int list"
  rl_tokens :: real
  lastRefill :: int
  refillRate :: real

text \<open>The constructor, called at clock reading \<open>now\<close>; the service passes burst size 10.\<close>

definition RateLimiter :: "real \<Rightarrow> real \<Rightarrow> int \<Rightarrow> rateLimiter" where
  "RateLimiter requestsPerMinute burst now =
     \<lparr> rl_limit = requestsPerMinute, burstSize = burst, rl_requests = [],
       rl_tokens = burst, lastRefill = now, refillRate = requestsPerMinute / 60000 \<rparr>"

text \<open>
  The error thrown by \<open>checkLimit\<close>; it carries the number of seconds of its message
  (\<open>None\<close> for \<open>Infinity\<close>, the minimum of an empty request log).
\<close>

datatype rate_error = RateLimitExceeded "int option"

text \<open>The refill of \<open>checkLimit\<close> and its cleaned request log.\<close>

definition refilledTokens :: "rateLimiter \<Rightarrow> int \<Rightarrow> real" where
  "refilledTokens rl now =
     (let timePassed = now - lastRefill rl;
          tokensToAdd = real_of_int timePassed * refillRate rl
      in min (burstSize rl) (rl_tokens rl + tokensToAdd))"

definition recentRequests :: "rateLimiter \<Rightarrow> int \<Rightarrow> int list" where
  "recentRequests rl now = filter (\<lambda>time. now - time < 60000) (rl_requests rl)"

definition waitSeconds :: "int list \<Rightarrow> int \<Rightarrow> int option" where
  "waitSeconds reqs now =
     (case reqs of
        [] \<Rightarrow> None
      | r # rs \<Rightarrow>
          (let oldestRequest = fold min rs r;
               waitTime = 60000 - (now - oldestRequest) + 1000
           in Some \<lceil>real_of_int waitTime / 1000\<rceil>))"

text \<open>
  \<open>checkLimit()\<close>: refill, clean the log, admit on a token; without a token, throw when
  the log of the last minute has reached the limit, and admit otherwise.  The result is
  \<open>Inr ()\<close> for a normal return and \<open>Inl\<close> for the thrown error, with the limiter as the
  call leaves it.
\<close>

definition checkLimit :: "rateLimiter \<Rightarrow> int \<Rightarrow> (rate_error + unit) \<times> rateLimiter" where
  "checkLimit rl now =
     (let rl1 = rl\<lparr> rl_tokens := refilledTokens rl now, lastRefill := now \<rparr>;
          rl2 = rl1\<lparr> rl_requests := recentRequests rl now \<rparr>
      in if rl_tokens rl2 \<ge> 1 then
           (Inr (), rl2\<lparr> rl_tokens := rl_tokens rl2 - 1, rl_requests := rl_requests rl2 @ [now] \<rparr>)
         else if real (length (rl_requests rl2)) \<ge> rl_limit rl2 then
           (Inl (RateLimitExceeded (waitSeconds (rl_requests rl2) now)), rl2)
         else
           (Inr (), rl2\<lparr> rl_requests := rl_requests rl2 @ [now] \<rparr>))"

text \<open>Successive calls of \<open>checkLimit\<close> at the given clock readings.\<close>

fun checkLimits :: "rateLimiter \<Rightarrow> int list \<Rightarrow> (rate_error + unit) list \<times> rateLimiter" where
  "checkLimits rl [] = ([], rl)"
| "checkLimits rl (now # later) =
     (case checkLimit rl now of
        (r, rl') \<Rightarrow> (case checkLimits rl' later of (rs, rl'') \<Rightarrow> (r # rs, rl'')))"

text \<open>How many of these calls are admitted by consuming a token.\<close>

fun tokenAdmissions :: "rateLimiter \<Rightarrow> int list \<Rightarrow> nat" where
  "tokenAdmissions rl [] = 0"
| "tokenAdmissions rl (now # later) =
     (if refilledTokens rl now \<ge> 1 then 1 else 0) + tokenAdmissions (snd (checkLimit rl now)) later"

text \<open>The OpenAI limiter of the service (500 requests per minute, burst 10), created at time 0.\<close>

definition openai_limiter :: rateLimiter where
  "openai_limiter = RateLimiter 500 10 0"


text \<open>
  Ten calls at time 0, which empty the bucket; a limiter of two requests per minute with
  burst size 1; and a longer sequence of calls of which the one at time 60 finds half a
  token and the one at time 120 a full one.
\<close>

definition ten_calls :: "int list" where
  "ten_calls = [0, 0, 0, 0, 0, 0, 0, 0, 0, 0]"

definition small_limiter :: rateLimiter where
  "small_limiter = RateLimiter 2 1 0"

definition limiter_trace :: "int list" where
  "limiter_trace = [0, 0, 0, 0, 0, 0, 0, 0, 0, 0, 0, 60, 120, 125]"


section \<open>Orchestration strategies (orchestration-service.js, class OrchestrationService)\<close>

record agent =
  ag_type :: string
  ag_name :: string
  ag_model :: string
  ag_systemPrompt :: "string option"
  ag_pipelinePrompt :: "string option"

record llm_response =
  content :: string
  usage :: "(nat \<times> nat \<times> nat) option"
  toolCalls :: "string list option"


subsection \<open>Pipeline\<close>












subsection \<open>String helpers\<close>








subsection \<open>Parallel and consensus (orchestration-service.js)\<close>









section \<open>Consensus check of the unified orchestrator (unified-llm-core.js)\<close>





record consensus =
  reached :: bool
  statement :: string
  cs_confidence :: "real option"
  participants :: "string list option"
  divergentPoints :: "string list option"













section \<open>Client gateway (websocket-service.js, class WebSocketService)\<close>

text \<open>A message object before \<open>JSON.stringify\<close>.\<close>

datatype json = JString string | JNumber int | JBool bool | JArray "json list"
  | JObject "(string \<times> json) list"

fun json_field :: "json \<Rightarrow> string \<Rightarrow> json option" where
  "json_field (JObject kvs) k = map_of kvs k"
| "json_field j k = None"

record ws_agent =
  wa_id :: string
  wa_name :: string
  wa_provider :: string
  wa_model :: string
  wa_systemPrompt :: string

record conversation =
  conv_messages :: "(string \<times> string) list"
  conv_agents :: "string list"
  conv_startTime :: int

text \<open>
  The service: \<open>clients\<close> maps a user id to its connection (connections are numbered),
  \<open>agents\<close> is keyed by agent id, \<open>conversations\<close> by session id.  \<open>ws_sent\<close> records
  every \<open>ws.send\<close>: the connection and the message.
\<close>

record webSocketService =
  ws_clients :: "(string \<times> nat) list"
  ws_config_agents :: "ws_agent list option"
  ws_agents :: "(string \<times> ws_agent) list"
  ws_conversations :: "(string \<times> conversation) list"
  ws_sent :: "(nat \<times> json) list"

definition default_agents :: "(string \<times> ws_agent) list" where
  "default_agents =
     [(''explorer'', \<lparr> wa_id = ''explorer'', wa_name = ''Explorer'', wa_provider = ''anthropic'',
          wa_model = ''claude-3-5-sonnet-20240620'',
          wa_systemPrompt = ''You are an explorer agent focused on discovering new insights.'' \<rparr>),
      (''synthesizer'', \<lparr> wa_id = ''synthesizer'', wa_name = ''Synthesizer'', wa_provider = ''openai'',
          wa_model = ''gpt-4'',
          wa_systemPrompt = ''You are a synthesis agent focused on combining ideas.'' \<rparr>),
      (''orchestrator'', \<lparr> wa_id = ''orchestrator'', wa_name = ''Orchestrator'', wa_provider = ''google'',
          wa_model = ''gemini-pro'',
          wa_systemPrompt = ''You are an orchestration agent managing collaboration.'' \<rparr>)]"

text \<open>
  \<open>initializeAgents\<close>.  The object \<open>agents\<close> is an association list in insertion order,
  which is the order of \<open>Object.keys\<close> for ids that are not array indices (an id such
  as \<open>'2'\<close> would be listed first by JavaScript).
\<close>

definition initializeAgents :: "webSocketService \<Rightarrow> webSocketService" where
  "initializeAgents svc =
     (let ags1 = (case ws_config_agents svc of
                    None \<Rightarrow> ws_agents svc
                  | Some cas \<Rightarrow> fold (\<lambda>a m. AList.update (wa_id a) a m) cas (ws_agents svc));
          ags2 = (if ags1 = [] then default_agents else ags1)
      in svc\<lparr> ws_agents := ags2 \<rparr>)"

text \<open>The constructor, before any connection.\<close>

definition WebSocketService :: "ws_agent list option \<Rightarrow> webSocketService" where
  "WebSocketService config =
     initializeAgents \<lparr> ws_clients = [], ws_config_agents = config, ws_agents = [],
                        ws_conversations = [], ws_sent = [] \<rparr>"

text \<open>Decimal digits of a clock reading, for \<open>`user-${Date.now()}`\<close>.\<close>

fun nat_digits :: "nat \<Rightarrow> string" where
  "nat_digits n =
     (if n < 10 then [char_of (48 + n)]
      else nat_digits (n div 10) @ [char_of (48 + n mod 10)])"

declare nat_digits.simps [simp del]

definition int_string :: "int \<Rightarrow> string" where
  "int_string i = (if i < 0 then ''-'' @ nat_digits (nat (- i)) else nat_digits (nat i))"

text \<open>
  The connection request: the \<open>userId\<close> query parameter and the \<open>x-user-id\<close> header,
  \<open>None\<close> when absent.  \<open>extractUserId\<close> takes the first that is a non-empty string, or
  generates an id from the clock.
\<close>

record connect_request =
  query_userId :: "string option"
  header_userId :: "string option"

definition truthy_string :: "string option \<Rightarrow> bool" where
  "truthy_string s = (case s of None \<Rightarrow> False | Some t \<Rightarrow> t \<noteq> [])"

definition extractUserId :: "connect_request \<Rightarrow> int \<Rightarrow> string" where
  "extractUserId req now =
     (if truthy_string (query_userId req) then the (query_userId req)
      else if truthy_string (header_userId req) then the (header_userId req)
      else ''user-'' @ int_string now)"

text \<open>The welcome message of \<open>handleConnection\<close>.\<close>

definition connected_event :: "webSocketService \<Rightarrow> string \<Rightarrow> json" where
  "connected_event svc userId =
     JObject [(''type'', JString ''connected''),
              (''userId'', JString userId),
              (''agents'', JArray (map (\<lambda>kv. JString (fst kv)) (ws_agents svc))),
              (''message'', JString ''Connected to AXON system'')]"

text \<open>
  \<open>handleConnection(ws, userId)\<close>: make sure the agents are loaded, store the client, send
  the welcome message.  The handlers it registers run later; \<open>handleClose\<close> is the one
  for the connection's \<open>close\<close> event.
\<close>

definition handleConnection :: "webSocketService \<Rightarrow> nat \<Rightarrow> string \<Rightarrow> webSocketService" where
  "handleConnection svc ws userId =
     (let svc1 = (if ws_agents svc = [] then initializeAgents svc else svc);
          svc2 = svc1\<lparr> ws_clients := AList.update userId ws (ws_clients svc1) \<rparr>
      in svc2\<lparr> ws_sent := ws_sent svc2 @ [(ws, connected_event svc2 userId)] \<rparr>)"

definition handleClose :: "webSocketService \<Rightarrow> string \<Rightarrow> webSocketService" where
  "handleClose svc userId = svc\<lparr> ws_clients := AList.delete userId (ws_clients svc) \<rparr>"

text \<open>The \<open>connection\<close> handler of the constructor.\<close>

definition onConnection :: "webSocketService \<Rightarrow> nat \<Rightarrow> connect_request \<Rightarrow> int \<Rightarrow> webSocketService" where
  "onConnection svc ws req now = handleConnection svc ws (extractUserId req now)"

text \<open>A gateway on which user \<open>u1\<close> is connected (connection 1) and has started a
  conversation, and the request of a second connection presenting the same user id.\<close>

definition gateway_with_u1 :: webSocketService where
  "gateway_with_u1 =
     (onConnection (WebSocketService None) 1
        \<lparr> query_userId = Some ''u1'', header_userId = None \<rparr> 1000)
     \<lparr> ws_conversations :=
         [(''session-1'', \<lparr> conv_messages = [(''user'', ''hello'')],
                             conv_agents = [''explorer'', ''synthesizer'', ''orchestrator''],
                             conv_startTime = 1500 \<rparr>)] \<rparr>"

definition u1_again :: connect_request where
  "u1_again = \<lparr> query_userId = Some ''u1'', header_userId = None \<rparr>"


section \<open>Response cache (cache-service.js, class CacheService)\<close>

record chat_message =
  msg_role :: string
  msg_content :: string

record parameters =
  temperature :: "real option"
  topP :: "real option"
  maxTokens :: "nat option"
  repetitionPenalty :: "real option"

text \<open>
  \<open>generateKey\<close> hashes (SHA-256) the JSON text of the model, the messages' roles and
  contents and three of the parameters.  The key is modelled by the hashed data itself,
  that is, the hash is taken to be injective.
\<close>

type_synonym cache_key = "string \<times> (string \<times> string) list \<times> real option \<times> real option \<times> nat option"

definition generateKey :: "string \<Rightarrow> chat_message list \<Rightarrow> parameters \<Rightarrow> cache_key" where
  "generateKey model messages ps =
     (model, map (\<lambda>m. (msg_role m, msg_content m)) messages,
      temperature ps, topP ps, maxTokens ps)"

record cache_entry =
  ce_response :: llm_response
  ce_timestamp :: int
  ce_lastAccess :: int
  ce_model :: string

record cacheService =
  cache :: "(cache_key \<times> cache_entry) list"
  ttl :: int
  maxSize :: nat
  enabled :: bool


text \<open>\<open>get(model, messages, parameters)\<close>: the cached response (\<open>None\<close> for \<open>null\<close>) and
  the cache after the call.\<close>

definition cache_get ::
  "cacheService \<Rightarrow> string \<Rightarrow> chat_message list \<Rightarrow> parameters \<Rightarrow> int
     \<Rightarrow> llm_response option \<times> cacheService" where
  "cache_get cs model messages ps now =
     (if \<not> enabled cs then (None, cs)
      else (let key = generateKey model messages ps in
            case map_of (cache cs) key of
              None \<Rightarrow> (None, cs)
            | Some cached \<Rightarrow>
                if now - ce_timestamp cached > ttl cs
                then (None, cs\<lparr> cache := AList.delete key (cache cs) \<rparr>)
                else (Some (ce_response cached),
                      cs\<lparr> cache := AList.update key (cached\<lparr> ce_lastAccess := now \<rparr>) (cache cs) \<rparr>)))"

text \<open>\<open>evictLRU\<close>: the loop that finds the entry accessed longest ago, then the delete.\<close>

fun oldest_entry ::
  "(cache_key \<times> cache_entry) list \<Rightarrow> cache_key option \<times> int \<Rightarrow> cache_key option \<times> int" where
  "oldest_entry [] acc = acc"
| "oldest_entry ((key, val) # rest) (oldestKey, oldestTime) =
     (if ce_lastAccess val < oldestTime
      then oldest_entry rest (Some key, ce_lastAccess val)
      else oldest_entry rest (oldestKey, oldestTime))"

definition evictLRU :: "cacheService \<Rightarrow> int \<Rightarrow> cacheService" where
  "evictLRU cs now =
     (case fst (oldest_entry (cache cs) (None, now)) of
        None \<Rightarrow> cs
      | Some oldestKey \<Rightarrow> cs\<lparr> cache := AList.delete oldestKey (cache cs) \<rparr>)"

text \<open>\<open>set(model, messages, parameters, response)\<close>\<close>

definition cache_set ::
  "cacheService \<Rightarrow> string \<Rightarrow> chat_message list \<Rightarrow> parameters \<Rightarrow> llm_response \<Rightarrow> int
     \<Rightarrow> cacheService" where
  "cache_set cs model messages ps response now =
     (if \<not> enabled cs then cs
      else (let key = generateKey model messages ps;
                cs1 = (if length (cache cs) \<ge> maxSize cs then evictLRU cs now else cs)
            in cs1\<lparr> cache := AList.update key
                         \<lparr> ce_response = response, ce_timestamp = now, ce_lastAccess = now,
                           ce_model = model \<rparr> (cache cs1) \<rparr>))"

section \<open>LLM service (llm-service.js, class LLMService)\<close>

datatype provider = OpenAI | Anthropic | Google

record modelConfig =
  mc_provider :: provider
  apiName :: string
  contextWindow :: nat






text \<open>
  What a provider SDK throws: the properties that the error mappers read
  (\<open>status\<close>, \<open>code\<close>, \<open>error.type\<close>, \<open>error.message\<close>, \<open>response.status\<close>) and the
  message of the error itself.
\<close>

record provider_failure =
  pf_status :: "int option"
  pf_code :: "string option"
  pf_error_type :: "string option"
  pf_error_message :: "string option"
  pf_response_status :: "int option"
  pf_message :: string








record 'p llmService =
  rateLimiters :: "provider \<Rightarrow> rateLimiter"
  breakers :: "(string \<times> circuitBreaker) list"
  cacheService :: cacheService
  providers :: 'p





















section \<open>Properties of Model Memory\<close>

lemma math_max0_Max: "math_max0 xs = Max (insert 0 (set xs))"
  using Max.set_eq_fold [of 0 xs] by (simp add: math_max0_def)

lemma map_of_updateQValue:
  "map_of (qTable (updateQValue rf state action reward)) (qkey state action) =
     Some (get_or_zero (qTable rf) (qkey state action) + learningRate rf *
       (reward + discountFactor rf * Max (insert 0 (set (nextStateActions (qTable rf) state)))
          - get_or_zero (qTable rf) (qkey state action)))"
  by (simp add: updateQValue_def Let_def update_conv' math_max0_Max)

lemma applyReinforcement_qTable:
  "qTable (mm_reinforcement (applyReinforcement m action reward state ts)) =
   qTable (updateQValue (mm_reinforcement m) state action reward)"
  by (simp add: applyReinforcement_def Let_def updateQValue_def)

lemma nextStateActions_recorded:
  assumes "\<forall>k \<in> set (map fst q). prefix state k \<longrightarrow> prefix (qkey state []) k"
  shows "nextStateActions q state = recordedQ q state"
proof -
  have "filter (prefix state) (map fst q) = filter (prefix (qkey state [])) (map fst q)"
  proof (rule filter_cong[OF refl])
    fix k assume "k \<in> set (map fst q)"
    moreover have "prefix (qkey state []) k \<Longrightarrow> prefix state k"
      by (auto simp: qkey_def prefix_def)
    ultimately show "prefix state k = prefix (qkey state []) k" using assms by blast
  qed
  then show ?thesis by (simp add: nextStateActions_def recordedQ_def)
qed

lemma mm_example_q: "qTable (mm_reinforcement mm_example) = [(''s:x'', - (1 / 10))]"
  by (simp add: mm_example_def applyReinforcement_def ModelMemory_def Let_def updateQValue_def
       qkey_def get_or_zero_def math_max0_def nextStateActions_def)

lemma mm_example_rates:
  "learningRate (mm_reinforcement mm_example) = 1 / 10"
  "discountFactor (mm_reinforcement mm_example) = 9 / 10"
  by (simp_all add: mm_example_def applyReinforcement_def ModelMemory_def Let_def updateQValue_def)

text \<open>
  Claim C7, as stated, fails.  The specification takes \<open>maxNextQ\<close> to be the maximum
  Q-value recorded for the state (0 only when there is none); \<open>updateQValue\<close> computes
  \<open>Math.max(0, ...)\<close>, which is 0 whenever every recorded value is negative.  After one
  punishment the only recorded value for state \<open>s\<close> is \<open>-1/10\<close>; a second punishment
  stores \<open>-19/100\<close>, where the stated rule gives \<open>-199/1000\<close>.
\<close>

theorem applyReinforcement_negative_q_counterexample:
  "map_of (qTable (mm_reinforcement (applyReinforcement mm_example ''x'' (- 1) ''s'' 6))) (qkey ''s'' ''x'')
     \<noteq> Some (spec_newQ (mm_reinforcement mm_example) ''s'' ''x'' (- 1))"
  apply (simp only: applyReinforcement_qTable map_of_updateQValue)
  apply (simp add: spec_newQ_def spec_maxNextQ_def recordedQ_def mm_example_q mm_example_rates
           qkey_def get_or_zero_def nextStateActions_def)
  done

text \<open>
  Claim C7, amended.  After \<open>applyReinforcement(action, reward, state)\<close> the Q-table entry
  for \<open>(state, action)\<close> equals
  \<open>oldQ + learningRate * (reward + discountFactor * maxNextQ - oldQ)\<close>, where \<open>maxNextQ\<close>
  is the larger of 0 and the maximum Q-value recorded for that state (so it is never
  negative), provided every recorded key that starts with the state string is a key of that
  state (starts with \<open>state:\<close>).  In particular, when the Q-table is empty, a single
  \<open>applyReinforcement(a, r, s)\<close> leaves \<open>Q[s,a] = learningRate * r\<close>.
\<close>

theorem applyReinforcement_q_update:
  assumes "\<forall>k \<in> set (map fst (qTable (mm_reinforcement m))). prefix state k \<longrightarrow> prefix (qkey state []) k"
  shows "map_of (qTable (mm_reinforcement (applyReinforcement m action reward state ts))) (qkey state action) =
           Some (get_or_zero (qTable (mm_reinforcement m)) (qkey state action) +
                 learningRate (mm_reinforcement m) *
                   (reward + discountFactor (mm_reinforcement m) *
                       Max (insert 0 (set (recordedQ (qTable (mm_reinforcement m)) state)))
                     - get_or_zero (qTable (mm_reinforcement m)) (qkey state action)))
         \<and> (qTable (mm_reinforcement m) = [] \<longrightarrow>
              map_of (qTable (mm_reinforcement (applyReinforcement m action reward state ts))) (qkey state action) =
                Some (learningRate (mm_reinforcement m) * reward))"
proof -
  have 1: "map_of (qTable (mm_reinforcement (applyReinforcement m action reward state ts))) (qkey state action) =
           Some (get_or_zero (qTable (mm_reinforcement m)) (qkey state action) +
                 learningRate (mm_reinforcement m) *
                   (reward + discountFactor (mm_reinforcement m) *
                       Max (insert 0 (set (recordedQ (qTable (mm_reinforcement m)) state)))
                     - get_or_zero (qTable (mm_reinforcement m)) (qkey state action)))"
    by (simp only: applyReinforcement_qTable map_of_updateQValue nextStateActions_recorded[OF assms])
  have 2: "qTable (mm_reinforcement m) = [] \<Longrightarrow>
      get_or_zero (qTable (mm_reinforcement m)) (qkey state action) +
                 learningRate (mm_reinforcement m) *
                   (reward + discountFactor (mm_reinforcement m) *
                       Max (insert 0 (set (recordedQ (qTable (mm_reinforcement m)) state)))
                     - get_or_zero (qTable (mm_reinforcement m)) (qkey state action))
      = learningRate (mm_reinforcement m) * reward"
    by (simp add: get_or_zero_def recordedQ_def)
  show ?thesis using 1 2 by simp
qed

theorem applyReinforcement_q_update_witness:
  "map_of (qTable (mm_reinforcement (applyReinforcement mm_example ''x'' (- 1) ''s'' 6))) (qkey ''s'' ''x'')
     = Some (- (19 / 100))"
proof -
  have h: "\<forall>k \<in> set (map fst (qTable (mm_reinforcement mm_example))). prefix ''s'' k \<longrightarrow> prefix (qkey ''s'' []) k"
    by (simp add: mm_example_q qkey_def)
  from applyReinforcement_q_update [OF h, of "''x''" "- 1" 6] show ?thesis
    by (simp add: mm_example_q mm_example_rates qkey_def recordedQ_def get_or_zero_def)
qed

lemma exploit_loop_mem:
  "ba = None \<or> (\<exists>a. ba = Some a \<and> a \<in> A) \<Longrightarrow> set xs \<subseteq> A \<Longrightarrow>
   fst (exploit_loop q st xs (ba, bv)) = None \<or>
   (\<exists>a. fst (exploit_loop q st xs (ba, bv)) = Some a \<and> a \<in> A)"
  by (induction xs arbitrary: ba bv) (auto simp: Let_def)

lemma exploit_loop_Some:
  "ba \<noteq> None \<Longrightarrow> fst (exploit_loop q st xs (ba, bv)) \<noteq> None"
  by (induction xs arbitrary: ba bv) (auto simp: Let_def)

text \<open>
  Claim C10.  For every state and every non-empty list \<open>availableActions\<close>,
  \<open>selectAction\<close> returns an element of \<open>availableActions\<close>, in the exploration branch
  (the index \<open>floor(random * length)\<close> is in range for a random number in [0, 1)) and in
  the exploitation branch (missing Q-table entries count as 0 and the running best is
  seeded with the first listed action), whatever the Q-table holds.
\<close>

theorem selectAction_returns_available:
  assumes "availableActions \<noteq> []" and "0 \<le> r2" and "r2 < 1"
  shows "\<exists>a. selectAction m state availableActions r1 r2 = Some a \<and> a \<in> set availableActions"
proof (cases "r1 < explorationRate (mm_reinforcement m)")
  case True
  let ?n = "length availableActions"
  have n: "0 < ?n" using assms(1) by simp
  have lo: "0 \<le> \<lfloor>r2 * real ?n\<rfloor>" using assms(2) by simp
  have "r2 * real ?n < real ?n" using assms(3) n by simp
  then have hi: "\<lfloor>r2 * real ?n\<rfloor> < int ?n" by (simp add: floor_less_iff)
  have "nat \<lfloor>r2 * real ?n\<rfloor> < ?n" using lo hi by linarith
  then have mem: "availableActions ! nat \<lfloor>r2 * real ?n\<rfloor> \<in> set availableActions"
    by (rule nth_mem)
  have "selectAction m state availableActions r1 r2 =
          Some (availableActions ! nat \<lfloor>r2 * real ?n\<rfloor>)"
    using True lo hi unfolding selectAction_def index_opt_def by (simp only: if_True simp_thms)
  with mem show ?thesis by blast
next
  case False
  obtain x xs where xs: "availableActions = x # xs"
    using assms(1) by (cases availableActions) auto
  have seed: "index_opt availableActions 0 = Some x" by (simp add: index_opt_def xs)
  have "fst (exploit_loop (qTable (mm_reinforcement m)) state availableActions (Some x, None)) = None \<or>
        (\<exists>a. fst (exploit_loop (qTable (mm_reinforcement m)) state availableActions (Some x, None)) = Some a
           \<and> a \<in> set availableActions)"
    by (rule exploit_loop_mem) (auto simp: xs)
  moreover have "fst (exploit_loop (qTable (mm_reinforcement m)) state availableActions (Some x, None)) \<noteq> None"
    by (rule exploit_loop_Some) simp
  ultimately show ?thesis using False seed by (simp add: selectAction_def)
qed

theorem selectAction_returns_available_witness:
  "[''x'', ''y'', ''z''] \<noteq> [] \<and> (0::real) \<le> 2 / 3 \<and> (2::real) / 3 < 1 \<and>
   (\<exists>a. selectAction mm_example ''s'' [''x'', ''y'', ''z''] (1 / 20) (2 / 3) = Some a
         \<and> a \<in> set [''x'', ''y'', ''z''])"
  using selectAction_returns_available [of "[''x'', ''y'', ''z'']" "2 / 3" mm_example "''s''" "1 / 20"]
  by simp

section \<open>Properties of Conversation Memory\<close>

lemma set_add_set: "set (set_add x xs) = insert x (set xs)"
  by (auto simp: set_add_def)

lemma markAvoided_mono: "set av \<subseteq> set (markAvoided e av)"
  by (auto simp: markAvoided_def set_add_set)

lemma fold_markAvoided_mono: "set av \<subseteq> set (fold markAvoided tm av)"
proof (induction tm arbitrary: av)
  case Nil
  then show ?case by simp
next
  case (Cons e tm)
  have "set av \<subseteq> set (markAvoided e av)" by (rule markAvoided_mono)
  also have "\<dots> \<subseteq> set (fold markAvoided tm (markAvoided e av))" by (rule Cons.IH)
  finally show ?case by simp
qed

lemma fold_markAvoided_complete:
  "(t, td) \<in> set tm \<Longrightarrow> discussed td > 5 \<Longrightarrow> depth td > 3 \<Longrightarrow> t \<in> set (fold markAvoided tm av)"
proof (induction tm arbitrary: av)
  case Nil
  then show ?case by simp
next
  case (Cons e tm)
  show ?case
  proof (cases "e = (t, td)")
    case True
    then have "t \<in> set (markAvoided e av)"
      using Cons.prems by (simp add: markAvoided_def set_add_set)
    then show ?thesis using fold_markAvoided_mono[of "markAvoided e av" tm] by auto
  next
    case False
    then show ?thesis using Cons by auto
  qed
qed

lemma addMessage_avoided:
  "avoidedTopics (snd (addMessage xh xt cm aid msg ts)) =
     fold markAvoided (topics (snd (addMessage xh xt cm aid msg ts))) (avoidedTopics cm)"
  by (simp add: addMessage_def Let_def)

lemma addMessage_mono:
  "set (avoidedTopics cm) \<subseteq> set (avoidedTopics (snd (addMessage xh xt cm aid msg ts)))"
  by (simp only: addMessage_avoided fold_markAvoided_mono)

lemma addMessages_mono:
  "set (avoidedTopics cm) \<subseteq> set (avoidedTopics (addMessages xh xt cm calls))"
proof (induction calls arbitrary: cm)
  case Nil
  then show ?case by simp
next
  case (Cons c calls)
  obtain aid msg ts where c: "c = (aid, msg, ts)" by (cases c) auto
  show ?case
    using addMessage_mono[of cm xh xt aid msg ts]
      Cons.IH[of "snd (addMessage xh xt cm aid msg ts)"]
    by (auto simp: c)
qed

lemma addMessage_complete:
  assumes "map_of (topics (snd (addMessage xh xt cm aid msg ts))) t = Some td"
    and "discussed td > 5" and "depth td > 3"
  shows "t \<in> set (avoidedTopics (snd (addMessage xh xt cm aid msg ts)))"
  using assms by (simp only: addMessage_avoided fold_markAvoided_complete[OF map_of_SomeD])

lemma addMessages_append:
  "addMessages xh xt cm (calls @ calls') = addMessages xh xt (addMessages xh xt cm calls) calls'"
  by (induction calls arbitrary: cm) auto

lemma cats_memory_topics:
  "topics cats_memory =
     [(''cats'', \<lparr>discussed = 12, consensus = False, depth = 16 / 5, firstMention = 1,
                   lastMention = 12\<rparr>)]"
  by (simp add: cats_memory_def cats_calls_def cats_twelfth_def upt_rec ConversationMemory_def
        addMessage_def Let_def trackTopic_def markAvoided_def set_add_def)

text \<open>
  Claim C8.  For every Conversation Memory and every sequence of \<open>addMessage\<close> calls,
  whatever the topic and hashtag extraction returns: the \<open>avoidedTopics\<close> set only grows
  (what it holds after some calls it still holds after any further calls), and after each
  \<open>addMessage\<close> it contains every topic whose \<open>discussed\<close> count exceeds 5 and whose
  \<open>depth\<close> exceeds 3.
\<close>

theorem avoidedTopics_grows_and_covers:
  "set (avoidedTopics (addMessages xh xt cm calls))
     \<subseteq> set (avoidedTopics (addMessages xh xt cm (calls @ further)))
   \<and> (\<forall>t td. map_of (topics (addMessages xh xt cm (calls @ [(aid, msg, ts)]))) t = Some td
               \<and> discussed td > 5 \<and> depth td > 3
          \<longrightarrow> t \<in> set (avoidedTopics (addMessages xh xt cm (calls @ [(aid, msg, ts)]))))"
proof
  show "set (avoidedTopics (addMessages xh xt cm calls))
          \<subseteq> set (avoidedTopics (addMessages xh xt cm (calls @ further)))"
    by (simp only: addMessages_append addMessages_mono)
next
  have "addMessages xh xt cm (calls @ [(aid, msg, ts)]) =
          snd (addMessage xh xt (addMessages xh xt cm calls) aid msg ts)"
    by (simp add: addMessages_append)
  then show "\<forall>t td. map_of (topics (addMessages xh xt cm (calls @ [(aid, msg, ts)]))) t = Some td
               \<and> discussed td > 5 \<and> depth td > 3
          \<longrightarrow> t \<in> set (avoidedTopics (addMessages xh xt cm (calls @ [(aid, msg, ts)])))"
    using addMessage_complete by metis
qed

theorem avoidedTopics_grows_and_covers_witness:
  "''cats'' \<in> set (avoidedTopics cats_memory)"
proof -
  have "map_of (topics cats_memory) ''cats'' =
          Some \<lparr>discussed = 12, consensus = False, depth = 16 / 5, firstMention = 1,
                 lastMention = 12\<rparr>"
    by (simp add: cats_memory_topics)
  then show ?thesis
    using avoidedTopics_grows_and_covers
      [of "\<lambda>_. []" "\<lambda>_. [''cats'']" "ConversationMemory ''s1''" cats_calls "[]"
          "''agent1''" "''let us discuss cats''" 12]
    by (simp add: cats_memory_def cats_twelfth_def)
qed

section \<open>Properties of the circuit breaker\<close>

lemma recordRequest_fields [simp]:
  "cb_state (recordRequest b s now) = cb_state b"
  "nextAttempt (recordRequest b s now) = nextAttempt b"
  "resetTimeout (recordRequest b s now) = resetTimeout b"
  "fallbackFunction (recordRequest b s now) = fallbackFunction b"
  "failures (recordRequest b s now) = failures b"
  "failureThreshold (recordRequest b s now) = failureThreshold b"
  by (simp_all add: recordRequest_def)

lemma settle_static [simp]:
  "resetTimeout (execute_settle b ok now) = resetTimeout b"
  "fallbackFunction (execute_settle b ok now) = fallbackFunction b"
  by (simp_all add: execute_settle_def onSuccess_def onFailure_def trip_def Let_def)

lemma blocked_trip: "blocked (trip b T) (T + resetTimeout b)"
  by (simp add: blocked_def trip_def)

lemma blocked_admit:
  "blocked b d \<Longrightarrow> now < d \<Longrightarrow> execute_admit b now = (refusal b, b)"
  by (auto simp: blocked_def execute_admit_def refusal_def)

lemma blocked_settle:
  "blocked b (T + resetTimeout b) \<Longrightarrow> T \<le> now \<Longrightarrow>
   blocked (execute_settle b ok now) (T + resetTimeout b)"
  by (auto simp: blocked_def execute_settle_def onSuccess_def onFailure_def trip_def Let_def)

lemma blocked_step:
  assumes "blocked b (T + resetTimeout b)"
    and "T \<le> time_of e" and "time_of e < T + resetTimeout b"
  shows "\<exists>b' n'. step (b, n, adm) e = (b', n', adm @ (if is_call e then [refusal b] else []))
            \<and> blocked b' (T + resetTimeout b') \<and> resetTimeout b' = resetTimeout b
            \<and> fallbackFunction b' = fallbackFunction b"
proof (cases e)
  case (Call now)
  then show ?thesis using assms blocked_admit[of b "T + resetTimeout b" now]
    by (auto simp: refusal_def)
next
  case (Settle ok now)
  then show ?thesis using assms blocked_settle[of b T now ok] by auto
qed

lemma blocked_run:
  assumes "blocked b (T + resetTimeout b)"
    and "\<forall>e \<in> set es. T \<le> time_of e \<and> time_of e < T + resetTimeout b"
  shows "\<exists>b' n'. run (b, n, adm) es =
                   (b', n', adm @ replicate (length (filter is_call es)) (refusal b))
            \<and> blocked b' (T + resetTimeout b')"
  using assms
proof (induction es arbitrary: b n adm)
  case Nil
  then show ?case by (simp add: run_def)
next
  case (Cons e es)
  from Cons.prems obtain b1 n1 where
    s: "step (b, n, adm) e = (b1, n1, adm @ (if is_call e then [refusal b] else []))"
    and b1: "blocked b1 (T + resetTimeout b1)" and r: "resetTimeout b1 = resetTimeout b"
    and f: "fallbackFunction b1 = fallbackFunction b"
    using blocked_step[of b T e n adm] by auto
  have "\<forall>e \<in> set es. T \<le> time_of e \<and> time_of e < T + resetTimeout b1"
    using Cons.prems r by simp
  from Cons.IH[OF b1 this] obtain b' n' where
    "run (b1, n1, adm @ (if is_call e then [refusal b] else [])) es =
       (b', n', (adm @ (if is_call e then [refusal b] else []))
                  @ replicate (length (filter is_call es)) (refusal b1))"
    and "blocked b' (T + resetTimeout b')" by blast
  moreover have "refusal b1 = refusal b" using f by (simp add: refusal_def)
  ultimately show ?case using s by (auto simp: run_def)
qed

text \<open>
  Claim C3.  Once a breaker has gone to \<open>OPEN\<close> (by \<open>trip\<close>, at time \<open>T\<close>), then in every
  execution that follows, with any number of earlier calls still in flight, as long as
  fewer than \<open>resetTimeout\<close> milliseconds have elapsed since \<open>T\<close>: no call of \<open>execute\<close>
  invokes the wrapped function; each one runs the registered fallback when there is one
  and throws the circuit-open error otherwise; and the breaker stays \<open>OPEN\<close>.
\<close>

theorem open_breaker_blocks_until_resetTimeout:
  assumes "\<forall>e \<in> set es. T \<le> time_of e \<and> time_of e < T + resetTimeout b"
  shows "Invoke \<notin> set (snd (snd (run (trip b T, inflight, []) es)))
         \<and> set (snd (snd (run (trip b T, inflight, []) es)))
              \<subseteq> {if fallbackFunction b then Fallback else CircuitOpenError}
         \<and> length (snd (snd (run (trip b T, inflight, []) es))) = length (filter is_call es)
         \<and> cb_state (fst (run (trip b T, inflight, []) es)) = OPEN"
proof -
  have r: "resetTimeout (trip b T) = resetTimeout b" by (simp add: trip_def)
  have f: "refusal (trip b T) = (if fallbackFunction b then Fallback else CircuitOpenError)"
    by (simp add: refusal_def trip_def)
  have "blocked (trip b T) (T + resetTimeout (trip b T))" using blocked_trip[of b T] r by simp
  moreover have "\<forall>e \<in> set es. T \<le> time_of e \<and> time_of e < T + resetTimeout (trip b T)"
    using assms r by simp
  ultimately obtain b' n' where
    "run (trip b T, inflight, []) es =
       (b', n', [] @ replicate (length (filter is_call es)) (refusal (trip b T)))"
    and "blocked b' (T + resetTimeout b')"
    using blocked_run[of "trip b T" T es inflight "[]"] by blast
  then show ?thesis using f by (auto simp: blocked_def)
qed

theorem open_breaker_blocks_until_resetTimeout_witness:
  "snd (snd (run (trip model_breaker 3, 1, []) [Call 10, Settle True 20, Call 30002]))
     = [CircuitOpenError, CircuitOpenError]
   \<and> cb_state (fst (run (trip model_breaker 3, 1, []) [Call 10, Settle True 20, Call 30002])) = OPEN"
proof -
  have r: "resetTimeout model_breaker = 30000" "\<not> fallbackFunction model_breaker"
    by (simp_all add: model_breaker_def CircuitBreaker_def num_or_def)
  have "\<forall>e \<in> set [Call 10, Settle True 20, Call 30002].
          3 \<le> time_of e \<and> time_of e < 3 + resetTimeout model_breaker"
    by (simp add: r)
  from open_breaker_blocks_until_resetTimeout[OF this, of 1] show ?thesis
    by (simp add: r run_def execute_admit_def execute_settle_def onSuccess_def
          recordRequest_def trip_def Let_def)
qed

text \<open>
  The probe of a half-open breaker, when nothing else settles on the breaker in between:
  success closes it and zeroes the failure counter; failure re-opens it and re-arms
  \<open>nextAttempt\<close>, but only because the failure counter still holds the count that opened
  the breaker (\<open>onFailure\<close> has no case for \<open>HALF_OPEN\<close>).
\<close>

lemma probe_success_closes:
  "cb_state b = HALF_OPEN \<Longrightarrow>
   cb_state (execute_settle b True now) = CLOSED \<and> failures (execute_settle b True now) = 0"
  by (simp add: execute_settle_def onSuccess_def Let_def recordRequest_def)

lemma probe_failure_reopens_iff:
  "cb_state b = HALF_OPEN \<Longrightarrow>
   (cb_state (execute_settle b False now) = OPEN) = (failureThreshold b \<le> int (failures b) + 1)"
  by (auto simp: execute_settle_def onFailure_def Let_def trip_def)

lemma probe_failure_rearms:
  "failureThreshold b \<le> int (failures b) + 1 \<Longrightarrow>
   nextAttempt (execute_settle b False now) = Some (now + resetTimeout b)"
  by (simp add: execute_settle_def onFailure_def Let_def trip_def)

text \<open>
  Claim C4 does not hold of the code.  In the execution \<open>late_success_trace\<close> the breaker
  is opened by three failures while a fourth call is in flight; that call succeeds while
  the breaker is open, and \<open>onSuccess\<close> zeroes the failure counter.  After the reset
  timeout the next call turns the breaker \<open>HALF_OPEN\<close> and is admitted as the probe.  The
  probe fails: \<open>onFailure\<close> counts one failure, which is below the threshold of three, so
  the breaker is not re-opened and \<open>nextAttempt\<close> is not re-armed; it stays \<open>HALF_OPEN\<close>.
\<close>

theorem half_open_probe_failure_not_reopened:
  "cb_state (fst (run (model_breaker, 0, []) (take 8 late_success_trace))) = OPEN
   \<and> run (model_breaker, 0, []) (take 9 late_success_trace)
       = (fst (run (model_breaker, 0, []) (take 9 late_success_trace)), 1,
          [Invoke, Invoke, Invoke, Invoke, Invoke])
   \<and> cb_state (fst (run (model_breaker, 0, []) (take 9 late_success_trace))) = HALF_OPEN
   \<and> cb_state (fst (run (model_breaker, 0, []) late_success_trace)) = HALF_OPEN
   \<and> nextAttempt (fst (run (model_breaker, 0, []) late_success_trace)) = Some 30003"
  by (simp add: run_def late_success_trace_def model_breaker_def CircuitBreaker_def num_or_def
        execute_admit_def execute_settle_def onSuccess_def onFailure_def recordRequest_def
        trip_def Let_def)

section \<open>Properties of the rate limiter\<close>

lemma checkLimit_static [simp]:
  "refillRate (snd (checkLimit rl now)) = refillRate rl"
  "burstSize (snd (checkLimit rl now)) = burstSize rl"
  "lastRefill (snd (checkLimit rl now)) = now"
  "rl_limit (snd (checkLimit rl now)) = rl_limit rl"
  by (simp_all add: checkLimit_def Let_def)

lemma checkLimit_tokens:
  "rl_tokens (snd (checkLimit rl now)) =
     (if 1 \<le> refilledTokens rl now then refilledTokens rl now - 1 else refilledTokens rl now)"
  by (simp add: checkLimit_def Let_def)

lemma checkLimit_admits:
  "(\<not> isl (fst (checkLimit rl now))) =
     (1 \<le> refilledTokens rl now \<or> real (length (recentRequests rl now)) < rl_limit rl)"
  by (auto simp: checkLimit_def Let_def)

lemma checkLimit_error:
  "isl (fst (checkLimit rl now)) \<Longrightarrow>
   fst (checkLimit rl now) = Inl (RateLimitExceeded (waitSeconds (recentRequests rl now) now))"
  by (auto simp: checkLimit_def Let_def split: if_splits)

lemma refilled_le_burst: "refilledTokens rl now \<le> burstSize rl"
  by (simp add: refilledTokens_def Let_def)

lemma refilled_le_sum:
  "refilledTokens rl now \<le> rl_tokens rl + real_of_int (now - lastRefill rl) * refillRate rl"
  by (simp add: refilledTokens_def Let_def)

lemma refilled_nonneg:
  "0 \<le> burstSize rl \<Longrightarrow> 0 \<le> rl_tokens rl \<Longrightarrow> 0 \<le> refillRate rl \<Longrightarrow> lastRefill rl \<le> now \<Longrightarrow>
   0 \<le> refilledTokens rl now"
  by (simp add: refilledTokens_def Let_def)

lemma checkLimits_snd_Cons:
  "snd (checkLimits rl (now # later)) = snd (checkLimits (snd (checkLimit rl now)) later)"
  by (simp split: prod.splits)

lemma token_potential:
  assumes "0 \<le> refillRate rl" "0 \<le> rl_tokens rl" "0 \<le> burstSize rl" "sorted (lastRefill rl # later)"
  shows "real (tokenAdmissions rl later) + rl_tokens (snd (checkLimits rl later))
           \<le> rl_tokens rl + refillRate rl * real_of_int (last (lastRefill rl # later) - lastRefill rl)
         \<and> 0 \<le> rl_tokens (snd (checkLimits rl later))"
  using assms
proof (induction later arbitrary: rl)
  case Nil
  then show ?case by simp
next
  case (Cons now later)
  let ?rl1 = "snd (checkLimit rl now)"
  have le: "lastRefill rl \<le> now" using Cons.prems(4) by simp
  have nn: "0 \<le> refilledTokens rl now" using Cons.prems le by (simp add: refilled_nonneg)
  have t1: "0 \<le> rl_tokens ?rl1" using nn by (simp add: checkLimit_tokens)
  have s1: "sorted (lastRefill ?rl1 # later)" using Cons.prems(4) by simp
  have ih: "real (tokenAdmissions ?rl1 later) + rl_tokens (snd (checkLimits ?rl1 later))
           \<le> rl_tokens ?rl1 + refillRate rl * real_of_int (last (now # later) - now)
         \<and> 0 \<le> rl_tokens (snd (checkLimits ?rl1 later))"
    using Cons.IH[of ?rl1] Cons.prems t1 s1 by simp
  have a: "real (if 1 \<le> refilledTokens rl now then 1 else 0) + rl_tokens ?rl1 = refilledTokens rl now"
    by (simp add: checkLimit_tokens)
  have b: "refilledTokens rl now \<le> rl_tokens rl + refillRate rl * real_of_int (now - lastRefill rl)"
    using refilled_le_sum[of rl now] by (simp add: mult.commute)
  have c: "refillRate rl * real_of_int (now - lastRefill rl) + refillRate rl * real_of_int (last (now # later) - now)
         = refillRate rl * real_of_int (last (now # later) - lastRefill rl)"
    by (simp add: algebra_simps)
  have "real (tokenAdmissions rl (now # later)) + rl_tokens (snd (checkLimits rl (now # later)))
       = real (if 1 \<le> refilledTokens rl now then 1 else 0) + real (tokenAdmissions ?rl1 later) + rl_tokens (snd (checkLimits ?rl1 later))"
    by (simp add: checkLimits_snd_Cons del: checkLimits.simps)
  also have "\<dots> \<le> real (if 1 \<le> refilledTokens rl now then 1 else 0) + rl_tokens ?rl1 + refillRate rl * real_of_int (last (now # later) - now)"
    using ih by linarith
  also have "\<dots> = refilledTokens rl now + refillRate rl * real_of_int (last (now # later) - now)"
    using a by linarith
  also have "\<dots> \<le> rl_tokens rl + refillRate rl * real_of_int (last (now # later) - lastRefill rl)"
    using b c by linarith
  finally show ?case using ih by (simp add: checkLimits_snd_Cons del: checkLimits.simps)
qed

lemma token_window_bound:
  assumes "0 \<le> refillRate rl" "0 \<le> rl_tokens rl" "0 \<le> burstSize rl"
    and "sorted (lastRefill rl # later)" and "later \<noteq> []"
  shows "real (tokenAdmissions rl later) \<le> burstSize rl + refillRate rl * real_of_int (last later - hd later)"
proof -
  obtain now rest where ts: "later = now # rest" using assms(5) by (cases later) auto
  let ?rl1 = "snd (checkLimit rl now)"
  have le: "lastRefill rl \<le> now" using assms(4) ts by simp
  have nn: "0 \<le> refilledTokens rl now" using assms le by (simp add: refilled_nonneg)
  have t1: "0 \<le> rl_tokens ?rl1" using nn by (simp add: checkLimit_tokens)
  have s1: "sorted (lastRefill ?rl1 # rest)" using assms(4) ts by simp
  have p: "real (tokenAdmissions ?rl1 rest) + rl_tokens (snd (checkLimits ?rl1 rest))
           \<le> rl_tokens ?rl1 + refillRate rl * real_of_int (last (now # rest) - now)
         \<and> 0 \<le> rl_tokens (snd (checkLimits ?rl1 rest))"
    using token_potential[of ?rl1 rest] assms t1 s1 by simp
  have a: "real (if 1 \<le> refilledTokens rl now then 1 else 0) + rl_tokens ?rl1 = refilledTokens rl now"
    by (simp add: checkLimit_tokens)
  have "real (tokenAdmissions rl later) = real (if 1 \<le> refilledTokens rl now then 1 else 0) + real (tokenAdmissions ?rl1 rest)"
    by (simp add: ts)
  also have "\<dots> \<le> refilledTokens rl now + refillRate rl * real_of_int (last (now # rest) - now)"
    using p a by linarith
  also have "\<dots> \<le> burstSize rl + refillRate rl * real_of_int (last (now # rest) - now)"
    using refilled_le_burst[of rl now] by linarith
  finally show ?thesis by (simp add: ts)
qed

text \<open>
  Claim C2, as stated, fails: a call is also admitted without a token.  The limiter of the
  service has burst size 10; ten calls at time 0 take the ten tokens, and an eleventh call
  at time 0 finds no token (the refill adds nothing) but only ten requests in the log of
  the last minute, fewer than the limit of 500, so it returns normally.  Eleven calls are
  admitted in a window of length 0, more than \<open>capacity + refillRate * 0 = 10\<close>.
\<close>

theorem checkLimit_admits_without_token_counterexample:
  "refilledTokens (snd (checkLimits openai_limiter ten_calls)) 0 = 0
   \<and> fst (checkLimit (snd (checkLimits openai_limiter ten_calls)) 0) = Inr ()
   \<and> fst (checkLimits openai_limiter (ten_calls @ [0]))
        = [Inr (), Inr (), Inr (), Inr (), Inr (), Inr (), Inr (), Inr (), Inr (), Inr (), Inr ()]
   \<and> burstSize openai_limiter + refillRate openai_limiter * 0 = 10"
  by (simp add: openai_limiter_def RateLimiter_def ten_calls_def checkLimit_def
        refilledTokens_def recentRequests_def Let_def)

text \<open>
  Claim C2, amended.  For every admission attempt (\<open>checkLimit\<close>), after refilling the
  tokens by the elapsed time times the refill rate, clamped to the capacity: the call is
  admitted if and only if at least one full token is available or fewer than \<open>limit\<close>
  requests are logged for the last 60 seconds; a token is taken (the bucket decremented by
  1) exactly when a full token is available; a call that is not admitted fails with the
  rate-limit error.  The number of calls admitted by taking a token, among calls at
  non-decreasing times (not before the last refill, on a limiter with non-negative rate,
  tokens and capacity), never exceeds \<open>capacity + refillRate * t\<close>, where \<open>t\<close> is the
  time from the first of these calls to the last.
\<close>

theorem checkLimit_admission:
  "(\<not> isl (fst (checkLimit rl now)))
      = (1 \<le> refilledTokens rl now \<or> real (length (recentRequests rl now)) < rl_limit rl)
   \<and> (isl (fst (checkLimit rl now)) \<longrightarrow>
        fst (checkLimit rl now) = Inl (RateLimitExceeded (waitSeconds (recentRequests rl now) now)))
   \<and> rl_tokens (snd (checkLimit rl now))
        = (if 1 \<le> refilledTokens rl now then refilledTokens rl now - 1 else refilledTokens rl now)
   \<and> refilledTokens rl now
        = min (burstSize rl) (rl_tokens rl + real_of_int (now - lastRefill rl) * refillRate rl)
   \<and> (0 \<le> refillRate rl \<and> 0 \<le> rl_tokens rl \<and> 0 \<le> burstSize rl
        \<and> sorted (lastRefill rl # later) \<and> later \<noteq> [] \<longrightarrow>
        real (tokenAdmissions rl later)
          \<le> burstSize rl + refillRate rl * real_of_int (last later - hd later))"
proof -
  have "refilledTokens rl now
        = min (burstSize rl) (rl_tokens rl + real_of_int (now - lastRefill rl) * refillRate rl)"
    by (simp add: refilledTokens_def Let_def)
  then show ?thesis
    using checkLimit_admits[of rl now] checkLimit_error[of rl now] checkLimit_tokens[of rl now]
      token_window_bound[of rl later]
    by blast
qed

theorem checkLimit_admission_witness:
  "tokenAdmissions openai_limiter limiter_trace = 11
   \<and> real (tokenAdmissions openai_limiter limiter_trace)
        \<le> burstSize openai_limiter
           + refillRate openai_limiter * real_of_int (last limiter_trace - hd limiter_trace)
   \<and> fst (checkLimit (snd (checkLimits small_limiter [0, 0])) 0)
        = Inl (RateLimitExceeded (Some 61))"
proof -
  have n: "tokenAdmissions openai_limiter limiter_trace = 11"
    by (simp add: openai_limiter_def RateLimiter_def limiter_trace_def checkLimit_def
          refilledTokens_def recentRequests_def Let_def)
  have h: "0 \<le> refillRate openai_limiter \<and> 0 \<le> rl_tokens openai_limiter
           \<and> 0 \<le> burstSize openai_limiter
           \<and> sorted (lastRefill openai_limiter # limiter_trace) \<and> limiter_trace \<noteq> []"
    by (simp add: openai_limiter_def RateLimiter_def limiter_trace_def)
  have r: "snd (checkLimits small_limiter [0, 0])
             = \<lparr> rl_limit = 2, burstSize = 1, rl_requests = [0, 0], rl_tokens = 0,
                 lastRefill = 0, refillRate = 2 / 60000 \<rparr>"
    by (simp add: small_limiter_def RateLimiter_def checkLimit_def refilledTokens_def
          recentRequests_def Let_def)
  have e: "fst (checkLimit (snd (checkLimits small_limiter [0, 0])) 0)
             = Inl (RateLimitExceeded (Some 61))"
    using checkLimit_admission[of "snd (checkLimits small_limiter [0, 0])" 0 "[]"]
    unfolding r
    by (simp add: refilledTokens_def recentRequests_def waitSeconds_def Let_def)
  from checkLimit_admission[of openai_limiter 0 limiter_trace] h n e show ?thesis by simp
qed

section \<open>Properties of the pipeline strategy\<close>












section \<open>Properties of the consensus strategies\<close>














section \<open>Properties of the client gateway\<close>

lemma handleConnection_clients:
  "map_of (ws_clients (handleConnection svc ws userId)) userId = Some ws"
  by (simp add: handleConnection_def Let_def initializeAgents_def update_conv')

lemma handleConnection_conversations:
  "ws_conversations (handleConnection svc ws userId) = ws_conversations svc"
  by (simp add: handleConnection_def Let_def initializeAgents_def)

lemma handleConnection_sent:
  "ws_sent (handleConnection svc ws userId) =
     ws_sent svc @ [(ws, connected_event (handleConnection svc ws userId) userId)]"
  by (simp add: handleConnection_def Let_def initializeAgents_def connected_event_def)

lemma connected_event_fields:
  "json_field (connected_event svc userId) ''type'' = Some (JString ''connected'')"
  "json_field (connected_event svc userId) ''userId'' = Some (JString userId)"
  "json_field (connected_event svc userId) ''isReconnection'' = None"
  by (simp_all add: connected_event_def)

lemma gateway_u1_clients: "map_of (ws_clients gateway_with_u1) ''u1'' = Some 1"
  by (simp add: gateway_with_u1_def onConnection_def extractUserId_def truthy_string_def
        handleConnection_clients)

text \<open>
  Claim C9, as stated, fails.  User \<open>u1\<close> is in the connection map (connection 1); a second
  connection that presents \<open>u1\<close> receives the same welcome message as any other
  connection, and that message has no \<open>isReconnection\<close> field.
\<close>

theorem reconnection_not_flagged_counterexample:
  "map_of (ws_clients gateway_with_u1) (extractUserId u1_again 2000) = Some 1
   \<and> json_field (snd (last (ws_sent (onConnection gateway_with_u1 2 u1_again 2000)))) ''isReconnection''
       \<noteq> Some (JBool True)"
  by (simp add: gateway_u1_clients onConnection_def handleConnection_sent connected_event_fields
        extractUserId_def truthy_string_def u1_again_def)

text \<open>
  Claim C9, amended.  When a client connects, whether or not the user id it presents is
  already in the gateway's connection map, the gateway stores the new connection under
  that user id (replacing an earlier one) and sends that connection one \<open>connected\<close>
  event carrying the user id and the agent ids; the event has no \<open>isReconnection\<close>
  field.  The gateway keeps no set of sessions per user id: the conversations, keyed by
  session id, are left as they are and nothing is inherited.
\<close>

theorem handleConnection_welcome:
  "ws_sent (onConnection svc ws req now)
     = ws_sent svc @ [(ws, connected_event (onConnection svc ws req now) (extractUserId req now))]
   \<and> json_field (connected_event (onConnection svc ws req now) (extractUserId req now)) ''type''
       = Some (JString ''connected'')
   \<and> json_field (connected_event (onConnection svc ws req now) (extractUserId req now)) ''userId''
       = Some (JString (extractUserId req now))
   \<and> json_field (connected_event (onConnection svc ws req now) (extractUserId req now)) ''isReconnection''
       = None
   \<and> map_of (ws_clients (onConnection svc ws req now)) (extractUserId req now) = Some ws
   \<and> ws_conversations (onConnection svc ws req now) = ws_conversations svc"
  unfolding onConnection_def
  using handleConnection_sent[of svc ws "extractUserId req now"]
  by (simp add: connected_event_fields handleConnection_clients handleConnection_conversations)

section \<open>Properties of the LLM service and the response cache\<close>




lemma cache_disabled:
  "\<not> enabled cs \<Longrightarrow> fst (cache_get cs model msgs ps now) = None \<and> cache_set cs model msgs ps response now = cs"
  by (simp add: cache_get_def cache_set_def)























end
